theory Spec2Isabelle
  imports Complex_Main
begin

section \<open>JavaScript values and the object store\<close>

text \<open>
  Error objects are linked through a configurable property and the links may form a
  cycle, so objects live in a store and are referred to by address. A property that is
  absent reads as \<open>Undefined\<close>. Numbers that the code uses as counts, limits, line
  numbers and return addresses are integers; timestamps are reals. A string is the list
  of its code units, each below 256 (ASCII in everything evaluated below).
\<close>

type_synonym addr = nat

datatype jsval =
    Undefined
  | Null
  | Bool bool
  | Num int
  | Str string
  | Ref addr
  | ArrayV

record stackElement =
  className :: string
  fileName :: string
  methodName :: string
  lineNumber :: int

text \<open>
  An object: whether it is an instance of \<open>Error\<close>, its ordinary properties (own or
  inherited), and the three native stack properties, which carry the data their
  TypeScript parameter types declare (\<open>None\<close>: the property is not in the object).
\<close>

record jsobj =
  instanceOfError :: bool
  props :: "string \<Rightarrow> jsval"
  stackElements :: "stackElement list option"
  stackSymbols :: "string list option"
  stackReturnAddresses :: "int list option"

type_synonym store = "addr \<Rightarrow> jsobj"

text \<open>\<open>obj[key]\<close> on an object of the store. The native stack properties hold arrays.\<close>

definition getp :: "store \<Rightarrow> addr \<Rightarrow> string \<Rightarrow> jsval" where
  "getp s a k =
     (if k = ''stackElements'' \<and> stackElements (s a) \<noteq> None then ArrayV
      else if k = ''stackSymbols'' \<and> stackSymbols (s a) \<noteq> None then ArrayV
      else if k = ''stackReturnAddresses'' \<and> stackReturnAddresses (s a) \<noteq> None then ArrayV
      else props (s a) k)"

text \<open>
  \<open>v.k\<close> on any value that is not \<open>undefined\<close> or \<open>null\<close> (every such read in the
  source is guarded by a truthiness test): primitives and arrays have none of the
  properties that are read.
\<close>

definition getv :: "store \<Rightarrow> jsval \<Rightarrow> string \<Rightarrow> jsval" where
  "getv s v k = (case v of Ref a \<Rightarrow> getp s a k | _ \<Rightarrow> Undefined)"

fun truthy :: "jsval \<Rightarrow> bool" where
  "truthy Undefined = False"
| "truthy Null = False"
| "truthy (Bool b) = b"
| "truthy (Num n) = (n \<noteq> 0)"
| "truthy (Str t) = (t \<noteq> [])"
| "truthy (Ref a) = True"
| "truthy ArrayV = True"

definition js_and :: "jsval \<Rightarrow> jsval \<Rightarrow> jsval" where
  "js_and a b = (if truthy a then b else a)"

definition js_or :: "jsval \<Rightarrow> jsval \<Rightarrow> jsval" where
  "js_or a b = (if truthy a then a else b)"

text \<open>\<open>isInstanceOf(wat, Error)\<close> of @sentry/utils: \<open>wat instanceof Error\<close>.\<close>

definition isInstanceOfError :: "store \<Rightarrow> jsval \<Rightarrow> bool" where
  "isInstanceOfError s wat = (case wat of Ref a \<Rightarrow> instanceOfError (s a) | _ \<Rightarrow> False)"

section \<open>String operations\<close>

text \<open>
  \<open>String.prototype.indexOf(pat, position)\<close>: the first index at or after \<open>position\<close>
  where \<open>pat\<close> occurs, or \<open>-1\<close>. \<open>indexFrom\<close> scans the rest of the string, \<open>i\<close> being
  the position of its head.
\<close>

fun isPrefix :: "string \<Rightarrow> string \<Rightarrow> bool" where
  "isPrefix [] t = True"
| "isPrefix (p # ps) [] = False"
| "isPrefix (p # ps) (c # cs) = (p = c \<and> isPrefix ps cs)"

fun indexFrom :: "string \<Rightarrow> nat \<Rightarrow> string \<Rightarrow> int" where
  "indexFrom pat i [] = (if pat = [] then int i else -1)"
| "indexFrom pat i (c # cs) =
     (if isPrefix pat (c # cs) then int i else indexFrom pat (Suc i) cs)"

definition clampIndex :: "string \<Rightarrow> int \<Rightarrow> nat" where
  "clampIndex t i = min (nat i) (length t)"

definition indexOf :: "string \<Rightarrow> string \<Rightarrow> int \<Rightarrow> int" where
  "indexOf t pat position =
     indexFrom pat (clampIndex t position) (drop (clampIndex t position) t)"

text \<open>
  \<open>String.prototype.substring(indexStart, indexEnd)\<close>: both indices are clamped to the
  string and swapped when the first is the greater.
\<close>

definition substring :: "string \<Rightarrow> int \<Rightarrow> int \<Rightarrow> string" where
  "substring t indexStart indexEnd =
     (let a = clampIndex t indexStart; b = clampIndex t indexEnd
      in take (max a b - min a b) (drop (min a b) t))"

text \<open>
  \<open>String.prototype.trimEnd\<close> strips white space and line terminators. Among the code
  units below 256 these are tab, line feed, vertical tab, form feed, carriage return,
  space and the no-break space U+00A0.
\<close>

definition isWhiteSpace :: "char \<Rightarrow> bool" where
  "isWhiteSpace c =
     (c \<in> set [CHR '' '', CHR 0x09, CHR 0x0A, CHR 0x0B, CHR 0x0C, CHR 0x0D, CHR 0xA0])"

definition trimEnd :: "string \<Rightarrow> string" where
  "trimEnd t = rev (dropWhile isWhiteSpace (rev t))"

text \<open>\<open>Number.prototype.toString(16)\<close> on an integer and \<open>padStart(n, '0')\<close>.\<close>

definition hexChar :: "nat \<Rightarrow> char" where
  "hexChar d = ''0123456789abcdef'' ! d"

fun hexDigits :: "nat \<Rightarrow> string" where
  "hexDigits n = (if n < 16 then [hexChar n] else hexDigits (n div 16) @ [hexChar (n mod 16)])"

definition toString16 :: "int \<Rightarrow> string" where
  "toString16 n = (if n < 0 then CHR ''-'' # hexDigits (nat (- n)) else hexDigits (nat n))"

definition padStart :: "nat \<Rightarrow> char \<Rightarrow> string \<Rightarrow> string" where
  "padStart n c t = replicate (n - length t) c @ t"

text \<open>
  \<open>/Minified React error #\d+;/i.test(m)\<close>: somewhere in \<open>m\<close> the literal occurs, letters
  compared without case, then one or more digits, then a semicolon.
\<close>

definition lowerChar :: "char \<Rightarrow> char" where
  "lowerChar c =
     (let n = (of_char c :: nat) in if 65 \<le> n \<and> n \<le> 90 then char_of (n + 32) else c)"

definition isDigit :: "char \<Rightarrow> bool" where
  "isDigit c = (let n = (of_char c :: nat) in 48 \<le> n \<and> n \<le> 57)"

definition reactMinifiedHere :: "string \<Rightarrow> bool" where
  "reactMinifiedHere t =
     (isPrefix ''minified react error #'' (map lowerChar t) \<and>
      (let r = drop 22 t; ds = takeWhile isDigit r
       in ds \<noteq> [] \<and> isPrefix '';'' (drop (length ds) r)))"

fun reactMinifiedRegexp_test :: "string \<Rightarrow> bool" where
  "reactMinifiedRegexp_test [] = False"
| "reactMinifiedRegexp_test (c # cs) =
     (reactMinifiedHere (c # cs) \<or> reactMinifiedRegexp_test cs)"

section \<open>Exception records\<close>

record stackFrame =
  f_platform :: "string option"
  f_module :: "string option"
  f_filename :: "string option"
  f_lineno :: "int option"
  f_function :: "string option"
  f_package :: "string option"
  f_instruction_addr :: "string option"

definition emptyFrame :: stackFrame where
  "emptyFrame = \<lparr> f_platform = None, f_module = None, f_filename = None, f_lineno = None,
     f_function = None, f_package = None, f_instruction_addr = None \<rparr>"

text \<open>
  \<open>Exception\<close> of @sentry/types: \<open>e_stacktrace = None\<close> is a record without the
  \<open>stacktrace\<close> property, \<open>Some fs\<close> is \<open>stacktrace: { frames: fs }\<close>.
\<close>

record exception =
  e_type :: jsval
  e_value :: jsval
  e_stacktrace :: "stackFrame list option"

text \<open>
  The stack parser is supplied by the client: it takes the raw stack and the number of
  frames to skip, and may throw (\<open>None\<close>).
\<close>

type_synonym stackParser = "jsval \<Rightarrow> int \<Rightarrow> stackFrame list option"

section \<open>nativelinkederrors: the conversions\<close>

definition DEFAULT_KEY :: string where
  "DEFAULT_KEY = ''cause''"

definition DEFAULT_LIMIT :: int where
  "DEFAULT_LIMIT = 5"

definition exceptionFromJavaStackElements ::
  "jsval \<Rightarrow> jsval \<Rightarrow> stackElement list \<Rightarrow> exception" where
  "exceptionFromJavaStackElements name message elems =
     \<lparr> e_type = name,
       e_value = message,
       e_stacktrace = Some (map (\<lambda>stackElement. emptyFrame
         \<lparr> f_platform := Some ''java'',
           f_module := Some (className stackElement),
           f_filename := Some (fileName stackElement),
           f_lineno := Some (lineNumber stackElement),
           f_function := Some (methodName stackElement) \<rparr>) elems) \<rparr>"

definition appleSymbolFrame :: "string \<Rightarrow> stackFrame" where
  "appleSymbolFrame stackSymbol =
     (let addrStartIndex = indexOf stackSymbol '' 0x'' 0 + 1;
          addrEndIndex = indexOf stackSymbol '' '' addrStartIndex;
          pkg = trimEnd (substring stackSymbol 5 addrStartIndex);
          addr = substring stackSymbol (addrStartIndex + 2) (addrEndIndex - 1);
          functionEndIndex = indexOf stackSymbol '' + '' addrEndIndex;
          func = substring stackSymbol (addrEndIndex + 1) functionEndIndex
      in emptyFrame
           \<lparr> f_platform := Some ''cocoa'',
             f_package := Some pkg,
             f_function := Some func,
             f_instruction_addr := Some addr \<rparr>)"

definition exceptionFromAppleStackSymbols ::
  "jsval \<Rightarrow> jsval \<Rightarrow> string list \<Rightarrow> exception" where
  "exceptionFromAppleStackSymbols name message symbols =
     \<lparr> e_type = name,
       e_value = message,
       e_stacktrace = Some (map appleSymbolFrame symbols) \<rparr>"

definition exceptionFromAppleStackReturnAddresses ::
  "jsval \<Rightarrow> jsval \<Rightarrow> int list \<Rightarrow> exception" where
  "exceptionFromAppleStackReturnAddresses name message addrs =
     \<lparr> e_type = name,
       e_value = message,
       e_stacktrace = Some (map (\<lambda>returnAddress. emptyFrame
         \<lparr> f_platform := Some ''cocoa'',
           f_instruction_addr := Some (padStart 16 (CHR ''0'') (toString16 returnAddress)) \<rparr>)
         addrs) \<rparr>"

text \<open>
  \<open>getPopSize\<close>. An object is always truthy, so the test \<open>if (ex)\<close> holds. The
  parameter type declares the message a string. The regular expression test converts
  any other value to a string first: the conversions of \<open>undefined\<close>, \<open>null\<close>, booleans
  and numbers cannot match the pattern; a message that is an array or an object is taken
  with a conversion that does not match (the default one of a plain object does not),
  a conversion of its own being outside the values modelled here.
\<close>

definition getPopSize :: "store \<Rightarrow> addr \<Rightarrow> int" where
  "getPopSize s ex =
     (case getp s ex ''framesToPop'' of
        Num n \<Rightarrow> n
      | _ \<Rightarrow> (case getp s ex ''message'' of
                Str m \<Rightarrow> if reactMinifiedRegexp_test m then 1 else 0
              | _ \<Rightarrow> 0))"

definition parseStackFrames :: "stackParser \<Rightarrow> store \<Rightarrow> addr \<Rightarrow> stackFrame list" where
  "parseStackFrames stackParser s ex =
     (let stacktrace = js_or (getp s ex ''stacktrace'') (js_or (getp s ex ''stack'') (Str ''''));
          popSize = getPopSize s ex
      in case stackParser stacktrace popSize of
           Some frames \<Rightarrow> frames
         | None \<Rightarrow> [])"

definition extractMessage :: "store \<Rightarrow> addr \<Rightarrow> jsval" where
  "extractMessage s ex =
     (let message = js_and (Ref ex) (getp s ex ''message'')
      in if \<not> truthy message then Str ''No error message''
         else if truthy (getv s message ''error'') \<and>
                 (case getv s (getv s message ''error'') ''message'' of Str _ \<Rightarrow> True | _ \<Rightarrow> False)
              then getv s (getv s message ''error'') ''message''
         else message)"

definition exceptionFromError :: "stackParser \<Rightarrow> store \<Rightarrow> addr \<Rightarrow> exception" where
  "exceptionFromError stackParser s ex =
     (let frames = parseStackFrames stackParser s ex;
          exception0 = \<lparr> e_type = js_and (Ref ex) (getp s ex ''name''),
                         e_value = extractMessage s ex,
                         e_stacktrace = None \<rparr>;
          exception1 = (if frames \<noteq> [] then exception0 \<lparr> e_stacktrace := Some frames \<rparr>
                        else exception0);
          exception2 = (if e_type exception1 = Undefined \<and> e_value exception1 = Str ''''
                        then exception1 \<lparr> e_value := Str ''Unrecoverable error caught'' \<rparr>
                        else exception1)
      in exception2)"

section \<open>nativelinkederrors: the chain walk\<close>

text \<open>
  The classification of the linked error inside \<open>_walkErrorTree\<close>, in the source's order.
\<close>

definition linkedException :: "stackParser \<Rightarrow> store \<Rightarrow> addr \<Rightarrow> exception" where
  "linkedException parser s linkedError =
     (case stackElements (s linkedError) of
        Some elems \<Rightarrow>
          exceptionFromJavaStackElements
            (getp s linkedError ''name'') (getp s linkedError ''message'') elems
      | None \<Rightarrow>
     (case stackSymbols (s linkedError) of
        Some symbols \<Rightarrow>
          exceptionFromAppleStackSymbols
            (getp s linkedError ''name'') (getp s linkedError ''message'') symbols
      | None \<Rightarrow>
     (case stackReturnAddresses (s linkedError) of
        Some addrs \<Rightarrow>
          exceptionFromAppleStackReturnAddresses
            (getp s linkedError ''name'') (getp s linkedError ''message'') addrs
      | None \<Rightarrow> exceptionFromError parser s linkedError)))"

function walkErrorTree ::
  "stackParser \<Rightarrow> int \<Rightarrow> store \<Rightarrow> addr \<Rightarrow> string \<Rightarrow> exception list \<Rightarrow> exception list" where
  "walkErrorTree parser limit s error key stack =
     (if \<not> isInstanceOfError s (getp s error key) \<or> int (length stack) + 1 \<ge> limit
      then stack
      else (case getp s error key of
              Ref linkedError \<Rightarrow>
                walkErrorTree parser limit s linkedError key
                  (linkedException parser s linkedError # stack)
            | _ \<Rightarrow> stack))"
  by pat_completeness auto
termination
  by (relation "measure (\<lambda>(parser, limit, s, error, key, stack). nat (limit - int (length stack)))")
     auto

section \<open>nativelinkederrors: the integration\<close>

text \<open>
  The event: its \<open>exception\<close> property may be absent, and so may the \<open>values\<close> of the
  exception container. Every other field of the event is in the record's extension.
\<close>

record exceptionContainer =
  c_values :: "exception list option"

record event =
  ev_exception :: "exceptionContainer option"

record eventHint =
  originalException :: jsval

definition handler ::
  "stackParser \<Rightarrow> string \<Rightarrow> int \<Rightarrow> store \<Rightarrow> 'a event_scheme \<Rightarrow> eventHint option
     \<Rightarrow> 'a event_scheme" where
  "handler parser key limit s event hint =
     (case ev_exception event of
        None \<Rightarrow> event
      | Some container \<Rightarrow>
     (case c_values container of
        None \<Rightarrow> event
      | Some vals \<Rightarrow>
     (case hint of
        None \<Rightarrow> event
      | Some h \<Rightarrow>
          if \<not> isInstanceOfError s (originalException h) then event
          else (case originalException h of
                  Ref error \<Rightarrow>
                    (let linkedErrors = walkErrorTree parser limit s error key []
                     in event \<lparr> ev_exception :=
                          Some (container \<lparr> c_values := Some (linkedErrors @ vals) \<rparr>) \<rparr>)
                | _ \<Rightarrow> event))))"

text \<open>
  The constructor: \<open>options\<close> is partial, each option may be absent. \<open>a || b\<close> takes
  \<open>b\<close> when \<open>a\<close> is \<open>undefined\<close>, the empty string or the number zero.
\<close>

record linkedErrorsOptions =
  o_key :: "string option"
  o_limit :: "int option"

record nativeLinkedErrors =
  n_name :: string
  n_key :: string
  n_limit :: int

definition constructor :: "linkedErrorsOptions \<Rightarrow> nativeLinkedErrors" where
  "constructor options =
     \<lparr> n_name = ''NativeLinkedErrors'',
       n_key = (case o_key options of
                  Some k \<Rightarrow> if k \<noteq> [] then k else DEFAULT_KEY
                | None \<Rightarrow> DEFAULT_KEY),
       n_limit = (case o_limit options of
                    Some l \<Rightarrow> if l \<noteq> 0 then l else DEFAULT_LIMIT
                  | None \<Rightarrow> DEFAULT_LIMIT) \<rparr>"

text \<open>
  The event processor that \<open>setupOnce\<close> registers, for the installed integration
  \<open>self\<close>: it reads the key and the limit of the instance and nothing else.
\<close>

definition eventProcessor ::
  "stackParser \<Rightarrow> nativeLinkedErrors \<Rightarrow> store \<Rightarrow> 'a event_scheme \<Rightarrow> eventHint option
     \<Rightarrow> 'a event_scheme" where
  "eventProcessor parser self s event hint =
     handler parser (n_key self) (n_limit self) s event hint"

section \<open>backgroundspans\<close>

definition BACKGROUND_SPAN_OP :: string where
  "BACKGROUND_SPAN_OP = ''app.background''"

datatype AppStateStatus = Active | Background | Inactive | Unknown | Extension

record span =
  op :: "string option"
  description :: "string option"
  startTimestamp :: real
  endTimestamp :: "real option"

text \<open>
  A transaction as the integration sees it: whether it is an instance of the span class,
  the spans of its recorder (\<open>None\<close>: no recorder), the marker \<open>__backgroundSpan\<close>, and how
  many times its \<open>finish\<close> has been replaced by the wrapper.
\<close>

record transaction =
  isSpanClass :: bool
  spans :: "span list option"
  backgroundSpanMarker :: bool
  finishWrappers :: nat

text \<open>
  \<open>tx.startChild(ctx).finish(endTimestamp)\<close> of @sentry/core: the finished child is
  added to the recorder when there is one.
\<close>

definition startChildFinish :: "transaction \<Rightarrow> span \<Rightarrow> transaction" where
  "startChildFinish tx child =
     (case spans tx of
        None \<Rightarrow> tx
      | Some sps \<Rightarrow> tx \<lparr> spans := Some (sps @ [child]) \<rparr>)"

definition createBackgroundSpan :: "real \<Rightarrow> real \<Rightarrow> transaction option \<Rightarrow> transaction option" where
  "createBackgroundSpan start endTs tx =
     (case tx of
        None \<Rightarrow> None
      | Some t \<Rightarrow>
          (let t1 = startChildFinish t
                      \<lparr> op = Some BACKGROUND_SPAN_OP,
                        description = Some ''App in background'',
                        startTimestamp = start,
                        endTimestamp = Some endTs \<rparr>
           in if backgroundSpanMarker t1 then Some t1
              else Some (t1 \<lparr> backgroundSpanMarker := True,
                              finishWrappers := Suc (finishWrappers t1) \<rparr>)))"

text \<open>
  The state of the integration is the start of the current background period. The
  listener tests it for truthiness: \<open>undefined\<close> and \<open>0\<close> are falsy.
\<close>

record backgroundSpans =
  currentBackgroundStartTimestamp :: "real option"

definition truthyTimestamp :: "real option \<Rightarrow> bool" where
  "truthyTimestamp t = (case t of None \<Rightarrow> False | Some x \<Rightarrow> x \<noteq> 0)"

text \<open>
  The listener of the \<open>change\<close> event: \<open>now\<close> is what \<open>timestampInSeconds()\<close> returns when
  it is called, \<open>tx\<close> the transaction of the current scope.
\<close>

definition onChange ::
  "backgroundSpans \<Rightarrow> AppStateStatus \<Rightarrow> real \<Rightarrow> transaction option
     \<Rightarrow> backgroundSpans \<times> transaction option" where
  "onChange this state now tx =
     (if state = Active \<and> truthyTimestamp (currentBackgroundStartTimestamp this) then
        (case currentBackgroundStartTimestamp this of
           Some start \<Rightarrow>
             (this \<lparr> currentBackgroundStartTimestamp := None \<rparr>,
              createBackgroundSpan start now tx)
         | None \<Rightarrow> (this, tx))
      else if state = Background \<and> \<not> truthyTimestamp (currentBackgroundStartTimestamp this) then
        (this \<lparr> currentBackgroundStartTimestamp := Some now \<rparr>, tx)
      else (this, tx))"

text \<open>
  The states the listener can reach from a fresh integration. The clock gives seconds
  since the epoch, a positive number.
\<close>

inductive reachable :: "backgroundSpans \<Rightarrow> bool" where
  initial: "reachable \<lparr> currentBackgroundStartTimestamp = None \<rparr>"
| change: "reachable this \<Longrightarrow> 0 < now \<Longrightarrow> reachable (fst (onChange this state now tx))"

text \<open>
  The backward scan of \<open>beforeTransactionFinish\<close>. \<open>trailingScan sps i acc\<close> runs the loop
  body for the indices \<open>i - 1\<close> down to \<open>0\<close>, \<open>acc\<close> holding \<open>trailingSpanIndex\<close> and
  \<open>trailingSpan\<close>.
\<close>

definition scanStep :: "nat \<Rightarrow> span \<Rightarrow> (nat \<times> span) option \<Rightarrow> (nat \<times> span) option" where
  "scanStep i sp acc =
     (case acc of
        None \<Rightarrow> Some (i, sp)
      | Some (trailingSpanIndex, trailingSpan) \<Rightarrow>
          (case (endTimestamp sp, endTimestamp trailingSpan) of
             (Some e, Some te) \<Rightarrow> if e > te then Some (i, sp) else acc
           | _ \<Rightarrow> acc))"

fun trailingScan :: "span list \<Rightarrow> nat \<Rightarrow> (nat \<times> span) option \<Rightarrow> (nat \<times> span) option" where
  "trailingScan sps 0 acc = acc"
| "trailingScan sps (Suc i) acc = trailingScan sps i (scanStep i (sps ! i) acc)"

definition findTrailing :: "span list \<Rightarrow> (nat \<times> span) option" where
  "findTrailing sps = trailingScan sps (length sps) None"

text \<open>\<open>spans.splice(i, 1)\<close>.\<close>

definition splice1 :: "nat \<Rightarrow> 'a list \<Rightarrow> 'a list" where
  "splice1 i xs = take i xs @ drop (Suc i) xs"

text \<open>
  \<open>beforeTransactionFinish\<close>: the result is the transaction that the original \<open>finish\<close>
  is then called on.
\<close>

definition beforeTransactionFinish :: "transaction \<Rightarrow> transaction" where
  "beforeTransactionFinish tx =
     (if \<not> isSpanClass tx then tx
      else (case spans tx of
              None \<Rightarrow> tx
            | Some sps \<Rightarrow>
                (let sps' = (case findTrailing sps of
                               Some (trailingSpanIndex, trailingSpan) \<Rightarrow>
                                 if op trailingSpan = Some BACKGROUND_SPAN_OP
                                 then splice1 trailingSpanIndex sps
                                 else sps
                             | None \<Rightarrow> sps)
                 in tx \<lparr> spans := Some sps', backgroundSpanMarker := False \<rparr>)))"

section \<open>Cause chains and the bounded walk\<close>



text \<open>
  \<open>_walkErrorTree\<close> again, with a bound on the number of calls: \<open>None\<close> when the bound
  is used up before the walk returns.
\<close>

fun walkErrorTreeFuel ::
  "nat \<Rightarrow> stackParser \<Rightarrow> int \<Rightarrow> store \<Rightarrow> addr \<Rightarrow> string \<Rightarrow> exception list
     \<Rightarrow> exception list option" where
  "walkErrorTreeFuel 0 parser limit s error key stack = None"
| "walkErrorTreeFuel (Suc n) parser limit s error key stack =
     (if \<not> isInstanceOfError s (getp s error key) \<or> int (length stack) + 1 \<ge> limit
      then Some stack
      else (case getp s error key of
              Ref linkedError \<Rightarrow>
                walkErrorTreeFuel n parser limit s linkedError key
                  (linkedException parser s linkedError # stack)
            | _ \<Rightarrow> Some stack))"

section \<open>Concrete inputs\<close>

definition noFrames :: stackParser where
  "noFrames stack skipFirst = Some []"

text \<open>A plain \<open>Error\<close> with the given name, message and cause.\<close>

definition plainError :: "jsval \<Rightarrow> jsval \<Rightarrow> jsval \<Rightarrow> jsobj" where
  "plainError name message c =
     \<lparr> instanceOfError = True,
       props = (\<lambda>k. if k = ''name'' then name
                     else if k = ''message'' then message
                     else if k = ''cause'' then c
                     else Undefined),
       stackElements = None,
       stackSymbols = None,
       stackReturnAddresses = None \<rparr>"

text \<open>Three errors, \<open>0\<close> caused by \<open>1\<close> caused by \<open>2\<close>.\<close>

definition chainStore :: store where
  "chainStore a =
     (if a = 0 then plainError (Str ''Error'') (Str ''top'') (Ref 1)
      else if a = 1 then plainError (Str ''TypeError'') (Str ''middle'') (Ref 2)
      else plainError (Str ''RangeError'') (Str ''root'') Undefined)"

text \<open>An error that is its own cause.\<close>

definition selfCycleStore :: store where
  "selfCycleStore a = plainError (Str ''Error'') (Str ''loop'') (Ref 0)"

text \<open>An error whose message is the empty string and whose name is \<open>undefined\<close>.\<close>

definition emptyMessageStore :: store where
  "emptyMessageStore a = plainError Undefined (Str []) Undefined"

text \<open>An error caused by a Java throwable that carries an empty \<open>stackElements\<close> list.\<close>

definition javaStore :: store where
  "javaStore a =
     (if a = 0 then plainError (Str ''Error'') (Str ''top'') (Ref 1)
      else (plainError (Str ''java.lang.RuntimeException'') (Str ''boom'') Undefined)
             \<lparr> stackElements := Some [] \<rparr>)"

definition appleSymbolLine :: string where
  "appleSymbolLine = ''0   MyApp   0x0000000102345678 -[MyApp foo] + 40''"

definition mkSpan :: "string \<Rightarrow> real option \<Rightarrow> span" where
  "mkSpan opName e = \<lparr> op = Some opName, description = None, startTimestamp = 0, endTimestamp = e \<rparr>"

definition mkTransaction :: "span list \<Rightarrow> transaction" where
  "mkTransaction sps =
     \<lparr> isSpanClass = True, spans = Some sps, backgroundSpanMarker = True, finishWrappers = 1 \<rparr>"

text \<open>
  \<open>isLatestEnded sps i\<close>: the span at index \<open>i\<close> has an end timestamp, no span of the
  list ends later, and no span after it ends at the same time.
\<close>

definition isLatestEnded :: "span list \<Rightarrow> nat \<Rightarrow> bool" where
  "isLatestEnded sps i =
     (i < length sps \<and>
      (case endTimestamp (sps ! i) of
         None \<Rightarrow> False
       | Some t \<Rightarrow>
           (\<forall>j < length sps. case endTimestamp (sps ! j) of None \<Rightarrow> True | Some e \<Rightarrow> e \<le> t) \<and>
           (\<forall>j < length sps. i < j \<longrightarrow> endTimestamp (sps ! j) \<noteq> Some t)))"

text \<open>Two ended spans share the latest end; and a list whose last span is still open.\<close>

definition tieSpans :: "span list" where
  "tieSpans = [mkSpan ''http.client'' (Some 7), mkSpan ''app.background'' (Some 7),
               mkSpan ''ui.load'' (Some 3)]"

definition openSpans :: "span list" where
  "openSpans = [mkSpan ''app.background'' (Some 9), mkSpan ''ui.load'' None]"

text \<open>A list whose last span is an open background span, after an ended span.\<close>

definition openBackgroundSpans :: "span list" where
  "openBackgroundSpans = [mkSpan ''ui.load'' (Some 9), mkSpan ''app.background'' None]"

section \<open>Lemmas about the chain walk\<close>



lemma walk_stop:
  "\<not> isInstanceOfError s (getp s error key) \<or> limit \<le> int (length stack) + 1
   \<Longrightarrow> walkErrorTree parser limit s error key stack = stack"
  by (subst walkErrorTree.simps) auto

lemma walk_step:
  "getp s error key = Ref b \<Longrightarrow> instanceOfError (s b) \<Longrightarrow> int (length stack) + 1 < limit
   \<Longrightarrow> walkErrorTree parser limit s error key stack =
       walkErrorTree parser limit s b key (linkedException parser s b # stack)"
  by (subst walkErrorTree.simps) (simp add: isInstanceOfError_def)


lemma walk_fuel:
  "nat (limit - 1 - int (length stack)) < n \<Longrightarrow>
   walkErrorTreeFuel n parser limit s error key stack =
     Some (walkErrorTree parser limit s error key stack)"
proof (induction n arbitrary: error stack)
  case 0
  then show ?case by simp
next
  case (Suc n)
  show ?case
  proof (cases "\<not> isInstanceOfError s (getp s error key) \<or> limit \<le> int (length stack) + 1")
    case True
    then show ?thesis by (auto simp: walk_stop)
  next
    case False
    then obtain b where b: "getp s error key = Ref b" "instanceOfError (s b)"
      by (auto simp: isInstanceOfError_def split: jsval.splits)
    from False have lt: "int (length stack) + 1 < limit" by simp
    have "nat (limit - 1 - int (length (linkedException parser s b # stack))) < n"
      using Suc.prems lt by simp
    from Suc.IH[OF this] show ?thesis
      using False b by (simp add: walk_step[OF b lt])
  qed
qed

lemma walk_selfcycle:
  "getp s error key = Ref error \<Longrightarrow> instanceOfError (s error) \<Longrightarrow>
   walkErrorTree parser limit s error key stack =
     replicate (nat (limit - 1 - int (length stack))) (linkedException parser s error) @ stack"
proof (induction "nat (limit - 1 - int (length stack))" arbitrary: stack)
  case 0
  then show ?case by (simp add: walk_stop)
next
  case (Suc k)
  from Suc(2) have lt: "int (length stack) + 1 < limit" by simp
  have k: "k = nat (limit - 1 - int (length (linkedException parser s error # stack)))"
    using Suc(2) by simp
  have r: "nat (limit - 1 - int (length stack)) = Suc k"
    using Suc(2) by simp
  show ?case
    unfolding walk_step[OF Suc(3) Suc(4) lt] Suc(1)[OF k Suc(3) Suc(4)] r k[symmetric]
    by (simp add: replicate_append_same)
qed

section \<open>Lemmas about the trailing span and the listener\<close>

lemma scanStep_index:
  "i < length sps \<Longrightarrow> (\<forall>j sp. acc = Some (j, sp) \<longrightarrow> j < length sps \<and> sps ! j = sp)
   \<Longrightarrow> scanStep i (sps ! i) acc = Some (j, sp) \<Longrightarrow> j < length sps \<and> sps ! j = sp"
  by (auto simp: scanStep_def split: option.splits if_splits)

lemma trailingScan_index:
  "k \<le> length sps \<Longrightarrow> (\<forall>j sp. acc = Some (j, sp) \<longrightarrow> j < length sps \<and> sps ! j = sp)
   \<Longrightarrow> trailingScan sps k acc = Some (i, sp) \<Longrightarrow> i < length sps \<and> sps ! i = sp"
proof (induction k arbitrary: acc)
  case 0
  then show ?case by simp
next
  case (Suc k)
  have kl: "k < length sps" using Suc.prems(1) by simp
  have "\<forall>j sp. scanStep k (sps ! k) acc = Some (j, sp) \<longrightarrow> j < length sps \<and> sps ! j = sp"
    using scanStep_index[OF kl Suc.prems(2)] by blast
  from Suc.IH[OF _ this] Suc.prems(3) kl show ?case by simp
qed

lemma findTrailing_index:
  "findTrailing sps = Some (i, sp) \<Longrightarrow> i < length sps \<and> sps ! i = sp"
  unfolding findTrailing_def using trailingScan_index[of "length sps" sps None i sp] by simp

lemma trailingScan_open:
  "endTimestamp sp = None \<Longrightarrow> trailingScan sps k (Some (i, sp)) = Some (i, sp)"
  by (induction k) (simp_all add: scanStep_def split: option.splits)

lemma findTrailing_open:
  assumes "sps \<noteq> []" "endTimestamp (last sps) = None"
  shows "findTrailing sps = Some (length sps - 1, last sps)"
proof -
  from assms(1) obtain n where n: "length sps = Suc n" by (cases sps) auto
  with assms(1) have l: "last sps = sps ! n" by (simp add: last_conv_nth)
  show ?thesis
    unfolding findTrailing_def n using assms(2) l
    by (simp add: scanStep_def trailingScan_open)
qed

lemma trailingScan_latest:
  "k \<le> i \<Longrightarrow> i < length sps \<Longrightarrow> endTimestamp (sps ! i) = Some t
   \<Longrightarrow> (\<forall>j. k \<le> j \<and> j < length sps \<longrightarrow> (\<forall>e. endTimestamp (sps ! j) = Some e \<longrightarrow> e \<le> t))
   \<Longrightarrow> (\<forall>j. i < j \<and> j < length sps \<longrightarrow> endTimestamp (sps ! j) \<noteq> Some t)
   \<Longrightarrow> \<exists>i'. trailingScan sps k (Some (i, sps ! i)) = Some (i', sps ! i') \<and> isLatestEnded sps i'"
proof (induction k arbitrary: i t)
  case 0
  then show ?case
    by (auto simp: isLatestEnded_def split: option.splits)
next
  case (Suc k)
  have kl: "k < length sps" "k \<le> k" "k < i" using Suc.prems by simp_all
  show ?case
  proof (cases "endTimestamp (sps ! k)")
    case None
    then have st: "scanStep k (sps ! k) (Some (i, sps ! i)) = Some (i, sps ! i)"
      by (simp add: scanStep_def)
    have "\<forall>j. k \<le> j \<and> j < length sps \<longrightarrow> (\<forall>e. endTimestamp (sps ! j) = Some e \<longrightarrow> e \<le> t)"
      using Suc.prems(4) None by (metis Suc_leI le_neq_implies_less option.distinct(1))
    from Suc.IH[OF _ Suc.prems(2,3) this Suc.prems(5)] kl st show ?thesis by simp
  next
    case (Some e)
    show ?thesis
    proof (cases "e > t")
      case True
      then have st: "scanStep k (sps ! k) (Some (i, sps ! i)) = Some (k, sps ! k)"
        using Some Suc.prems(3) by (simp add: scanStep_def)
      have a: "\<forall>j. k \<le> j \<and> j < length sps \<longrightarrow> (\<forall>e'. endTimestamp (sps ! j) = Some e' \<longrightarrow> e' \<le> e)"
      proof (intro allI impI)
        fix j e' assume j: "k \<le> j \<and> j < length sps" and e': "endTimestamp (sps ! j) = Some e'"
        show "e' \<le> e"
        proof (cases "j = k")
          case True with e' Some show ?thesis by simp
        next
          case False
          with j have "Suc k \<le> j \<and> j < length sps" by simp
          with Suc.prems(4) e' have "e' \<le> t" by blast
          with \<open>e > t\<close> show ?thesis by simp
        qed
      qed
      have b: "\<forall>j. k < j \<and> j < length sps \<longrightarrow> endTimestamp (sps ! j) \<noteq> Some e"
      proof (intro allI impI notI)
        fix j assume j: "k < j \<and> j < length sps" and e': "endTimestamp (sps ! j) = Some e"
        then have "Suc k \<le> j \<and> j < length sps" by simp
        with Suc.prems(4) e' have "e \<le> t" by blast
        with \<open>e > t\<close> show False by simp
      qed
      from Suc.IH[OF kl(2) kl(1) Some a b] st show ?thesis by simp
    next
      case False
      then have st: "scanStep k (sps ! k) (Some (i, sps ! i)) = Some (i, sps ! i)"
        using Some Suc.prems(3) by (simp add: scanStep_def)
      have a: "\<forall>j. k \<le> j \<and> j < length sps \<longrightarrow> (\<forall>e'. endTimestamp (sps ! j) = Some e' \<longrightarrow> e' \<le> t)"
      proof (intro allI impI)
        fix j e' assume j: "k \<le> j \<and> j < length sps" and e': "endTimestamp (sps ! j) = Some e'"
        show "e' \<le> t"
        proof (cases "j = k")
          case True with e' Some False show ?thesis by simp
        next
          case False
          with j have "Suc k \<le> j \<and> j < length sps" by simp
          with Suc.prems(4) e' show ?thesis by blast
        qed
      qed
      from Suc.IH[OF _ Suc.prems(2,3) a Suc.prems(5)] kl st show ?thesis by simp
    qed
  qed
qed

lemma findTrailing_latest:
  assumes "sps \<noteq> []" "endTimestamp (last sps) \<noteq> None"
  shows "\<exists>i. findTrailing sps = Some (i, sps ! i) \<and> isLatestEnded sps i"
proof -
  from assms(1) obtain n where n: "length sps = Suc n" by (cases sps) auto
  with assms(1) have l: "last sps = sps ! n" by (simp add: last_conv_nth)
  with assms(2) obtain t where t: "endTimestamp (sps ! n) = Some t" by auto
  have a: "\<forall>j. n \<le> j \<and> j < length sps \<longrightarrow> (\<forall>e. endTimestamp (sps ! j) = Some e \<longrightarrow> e \<le> t)"
    using n t by (auto simp: less_Suc_eq_le)
  have b: "\<forall>j. n < j \<and> j < length sps \<longrightarrow> endTimestamp (sps ! j) \<noteq> Some t"
    using n by auto
  have "n < length sps" using n by simp
  from trailingScan_latest[OF le_refl this t a b] show ?thesis
    unfolding findTrailing_def n by (simp add: scanStep_def)
qed

lemma reachable_positive:
  "reachable this \<Longrightarrow> currentBackgroundStartTimestamp this = Some t \<Longrightarrow> 0 < t"
proof (induction arbitrary: t rule: reachable.induct)
  case initial
  then show ?case by simp
next
  case (change this now state tx)
  then show ?case
    by (auto simp: onChange_def split: if_splits option.splits)
qed

section \<open>The claims\<close>



text \<open>
  Claim C2. The code at the symbol line of the claim: the package loses its first
  character and the address its last digit.
\<close>

theorem exceptionFromAppleStackSymbols_line:
  "exceptionFromAppleStackSymbols (Str ''NSException'') (Str ''boom'') [appleSymbolLine] =
     \<lparr> e_type = Str ''NSException'', e_value = Str ''boom'',
       e_stacktrace = Some [emptyFrame \<lparr> f_platform := Some ''cocoa'',
          f_package := Some ''yApp'', f_function := Some ''-[MyApp foo]'',
          f_instruction_addr := Some ''000000010234567'' \<rparr>] \<rparr>"
  by code_simp

text \<open>
  Claim C3, as stated, fails: for an error whose message is the empty string and whose
  name is \<open>undefined\<close> the value is not \<open>Unrecoverable error caught\<close>.
\<close>

theorem exceptionFromError_empty_message_counterexample:
  "getp emptyMessageStore 0 ''message'' = Str [] \<and> getp emptyMessageStore 0 ''name'' = Undefined
   \<and> e_value (exceptionFromError noFrames emptyMessageStore 0) \<noteq> Str ''Unrecoverable error caught''"
  by code_simp

text \<open>
  Claim C3, amended. For every error whose message is the empty string and whose name is
  \<open>undefined\<close>, \<open>exceptionFromError\<close> returns a record whose value is
  \<open>No error message\<close>: the message extraction replaces the empty message first.
\<close>

theorem exceptionFromError_empty_message:
  "getp s ex ''message'' = Str [] \<Longrightarrow> getp s ex ''name'' = Undefined \<Longrightarrow>
   e_value (exceptionFromError parser s ex) = Str ''No error message''"
  by (simp add: exceptionFromError_def extractMessage_def js_and_def Let_def)

theorem exceptionFromError_empty_message_witness:
  "getp emptyMessageStore 0 ''message'' = Str [] \<and> getp emptyMessageStore 0 ''name'' = Undefined
   \<and> e_value (exceptionFromError noFrames emptyMessageStore 0) = Str ''No error message''"
proof -
  have m: "getp emptyMessageStore 0 ''message'' = Str []" by code_simp
  have n: "getp emptyMessageStore 0 ''name'' = Undefined" by code_simp
  from exceptionFromError_empty_message[OF m n] m n show ?thesis by simp
qed

text \<open>
  Claim C4, as stated, fails where the last span of the list has no end timestamp. In
  \<open>openSpans\<close> the span with the latest end, no other span ending later, is the
  background span, and the wrapper keeps it. In \<open>openBackgroundSpans\<close> that span has
  another op, and the wrapper changes the list.
\<close>

theorem beforeTransactionFinish_latest_counterexample:
  "isLatestEnded openSpans 0
   \<and> op (openSpans ! 0) = Some ''app.background''
   \<and> spans (beforeTransactionFinish (mkTransaction openSpans)) = Some openSpans
   \<and> isLatestEnded openBackgroundSpans 0
   \<and> op (openBackgroundSpans ! 0) = Some ''ui.load''
   \<and> spans (beforeTransactionFinish (mkTransaction openBackgroundSpans)) =
       Some [mkSpan ''ui.load'' (Some 9)]
   \<and> openBackgroundSpans \<noteq> [mkSpan ''ui.load'' (Some 9)]"
proof -
  have a: "isLatestEnded openSpans 0"
    by (simp add: isLatestEnded_def openSpans_def mkSpan_def less_Suc_eq numeral_2_eq_2)
  have b: "isLatestEnded openBackgroundSpans 0"
    by (simp add: isLatestEnded_def openBackgroundSpans_def mkSpan_def less_Suc_eq
        numeral_2_eq_2)
  have c: "findTrailing openSpans = Some (1, mkSpan ''ui.load'' None)"
    by (simp add: findTrailing_def openSpans_def scanStep_def mkSpan_def numeral_2_eq_2)
  have d: "findTrailing openBackgroundSpans = Some (1, mkSpan ''app.background'' None)"
    by (simp add: findTrailing_def openBackgroundSpans_def scanStep_def mkSpan_def
        numeral_2_eq_2)
  have e: "spans (beforeTransactionFinish (mkTransaction openSpans)) = Some openSpans"
    by (simp add: beforeTransactionFinish_def mkTransaction_def c BACKGROUND_SPAN_OP_def
        mkSpan_def)
  have f: "spans (beforeTransactionFinish (mkTransaction openBackgroundSpans)) =
       Some [mkSpan ''ui.load'' (Some 9)]"
    by (simp add: beforeTransactionFinish_def mkTransaction_def d BACKGROUND_SPAN_OP_def
        mkSpan_def splice1_def) (simp add: openBackgroundSpans_def mkSpan_def)
  have g: "op (openSpans ! 0) = Some ''app.background''"
    by (simp add: openSpans_def mkSpan_def)
  have h: "op (openBackgroundSpans ! 0) = Some ''ui.load''"
    by (simp add: openBackgroundSpans_def mkSpan_def)
  have i: "openBackgroundSpans \<noteq> [mkSpan ''ui.load'' (Some 9)]"
    by (simp add: openBackgroundSpans_def)
  from a b e f g h i show ?thesis by blast
qed

text \<open>
  Claim C4, amended. For a transaction that is a span-class instance with a recorder, the
  wrapper selects the trailing span by its backward scan: the last span of the list when
  that span has no end timestamp, and otherwise the span with the latest end timestamp
  (the one with the greatest index when several share it). When the selected span has
  op \<open>app.background\<close> the wrapper removes exactly that span from the list before the
  original finish is invoked; when it has any other op, and when the list is empty, the
  list is left unchanged.
\<close>

theorem beforeTransactionFinish_trailing:
  assumes "isSpanClass tx" and "spans tx = Some sps"
  shows "(sps = [] \<longrightarrow> spans (beforeTransactionFinish tx) = Some [])
       \<and> (sps \<noteq> [] \<and> endTimestamp (last sps) = None \<longrightarrow>
            spans (beforeTransactionFinish tx) =
              Some (if op (last sps) = Some ''app.background'' then butlast sps else sps))
       \<and> (sps \<noteq> [] \<and> endTimestamp (last sps) \<noteq> None \<longrightarrow>
            (\<exists>i. isLatestEnded sps i
               \<and> spans (beforeTransactionFinish tx) =
                   Some (if op (sps ! i) = Some ''app.background''
                         then take i sps @ drop (Suc i) sps else sps)))"
proof (intro conjI impI)
  assume "sps = []"
  then show "spans (beforeTransactionFinish tx) = Some []"
    using assms by (simp add: beforeTransactionFinish_def findTrailing_def)
next
  assume h: "sps \<noteq> [] \<and> endTimestamp (last sps) = None"
  then have f: "findTrailing sps = Some (length sps - 1, last sps)"
    using findTrailing_open by blast
  have "splice1 (length sps - 1) sps = butlast sps"
    using h by (simp add: splice1_def butlast_conv_take)
  then show "spans (beforeTransactionFinish tx) =
      Some (if op (last sps) = Some ''app.background'' then butlast sps else sps)"
    using assms f by (simp add: beforeTransactionFinish_def BACKGROUND_SPAN_OP_def)
next
  assume h: "sps \<noteq> [] \<and> endTimestamp (last sps) \<noteq> None"
  then obtain i where i: "findTrailing sps = Some (i, sps ! i)" "isLatestEnded sps i"
    using findTrailing_latest by blast
  have "spans (beforeTransactionFinish tx) =
      Some (if op (sps ! i) = Some ''app.background''
            then take i sps @ drop (Suc i) sps else sps)"
    using assms i(1) by (simp add: beforeTransactionFinish_def BACKGROUND_SPAN_OP_def splice1_def)
  with i(2) show "\<exists>i. isLatestEnded sps i
      \<and> spans (beforeTransactionFinish tx) =
          Some (if op (sps ! i) = Some ''app.background''
                then take i sps @ drop (Suc i) sps else sps)"
    by blast
qed

theorem beforeTransactionFinish_trailing_witness:
  "isSpanClass (mkTransaction tieSpans) \<and> spans (mkTransaction tieSpans) = Some tieSpans
   \<and> tieSpans \<noteq> [] \<and> endTimestamp (last tieSpans) \<noteq> None
   \<and> (\<exists>i. isLatestEnded tieSpans i
          \<and> spans (beforeTransactionFinish (mkTransaction tieSpans)) =
              Some (if op (tieSpans ! i) = Some ''app.background''
                    then take i tieSpans @ drop (Suc i) tieSpans else tieSpans))
   \<and> isSpanClass (mkTransaction openBackgroundSpans)
   \<and> spans (mkTransaction openBackgroundSpans) = Some openBackgroundSpans
   \<and> openBackgroundSpans \<noteq> [] \<and> endTimestamp (last openBackgroundSpans) = None
   \<and> spans (beforeTransactionFinish (mkTransaction openBackgroundSpans)) =
       Some [mkSpan ''ui.load'' (Some 9)]"
proof -
  have a: "isSpanClass (mkTransaction tieSpans)" by (simp add: mkTransaction_def)
  have b: "spans (mkTransaction tieSpans) = Some tieSpans" by (simp add: mkTransaction_def)
  have c: "tieSpans \<noteq> [] \<and> endTimestamp (last tieSpans) \<noteq> None"
    by (simp add: tieSpans_def mkSpan_def)
  have a': "isSpanClass (mkTransaction openBackgroundSpans)" by (simp add: mkTransaction_def)
  have b': "spans (mkTransaction openBackgroundSpans) = Some openBackgroundSpans"
    by (simp add: mkTransaction_def)
  have c': "openBackgroundSpans \<noteq> [] \<and> endTimestamp (last openBackgroundSpans) = None"
    by (simp add: openBackgroundSpans_def mkSpan_def)
  have d': "(if op (last openBackgroundSpans) = Some ''app.background''
             then butlast openBackgroundSpans else openBackgroundSpans) =
            [mkSpan ''ui.load'' (Some 9)]"
    by (simp add: openBackgroundSpans_def mkSpan_def)
  from beforeTransactionFinish_trailing[OF a b] c
  have t: "\<exists>i. isLatestEnded tieSpans i
          \<and> spans (beforeTransactionFinish (mkTransaction tieSpans)) =
              Some (if op (tieSpans ! i) = Some ''app.background''
                    then take i tieSpans @ drop (Suc i) tieSpans else tieSpans)"
    by blast
  from beforeTransactionFinish_trailing[OF a' b'] c'
  have "spans (beforeTransactionFinish (mkTransaction openBackgroundSpans)) =
      Some (if op (last openBackgroundSpans) = Some ''app.background''
            then butlast openBackgroundSpans else openBackgroundSpans)"
    by blast
  then have o: "spans (beforeTransactionFinish (mkTransaction openBackgroundSpans)) =
       Some [mkSpan ''ui.load'' (Some 9)]"
    unfolding d' .
  from a b c t a' b' c' o show ?thesis by blast
qed

text \<open>
  Claim C5. If the event has no exception, or its exception has no values, or there is
  no hint, or the hint's original exception is not an instance of \<open>Error\<close>, the handler
  returns the event as it was given, every field included.
\<close>

theorem handler_noop:
  assumes "ev_exception event = None
         \<or> (\<exists>c. ev_exception event = Some c \<and> c_values c = None)
         \<or> hint = None
         \<or> (\<exists>h. hint = Some h \<and> \<not> isInstanceOfError s (originalException h))"
  shows "handler parser key limit s event hint = event"
  using assms by (auto simp: handler_def split: option.splits)

theorem handler_noop_witness:
  "handler noFrames ''cause'' 5 chainStore
     \<lparr> ev_exception = Some \<lparr> c_values = Some [] \<rparr> \<rparr> (Some \<lparr> originalException = Str ''thrown'' \<rparr>)
   = \<lparr> ev_exception = Some \<lparr> c_values = Some [] \<rparr> \<rparr>
   \<and> handler noFrames ''cause'' 5 chainStore \<lparr> ev_exception = None \<rparr> (Some \<lparr> originalException = Ref 0 \<rparr>)
   = \<lparr> ev_exception = None \<rparr>"
proof -
  have a: "\<not> isInstanceOfError chainStore (originalException \<lparr> originalException = Str ''thrown'' \<rparr>)"
    by (simp add: isInstanceOfError_def)
  have b: "ev_exception \<lparr> ev_exception = None \<rparr> = None" by simp
  show ?thesis
    using handler_noop[of "\<lparr> ev_exception = Some \<lparr> c_values = Some [] \<rparr> \<rparr>"
        "Some \<lparr> originalException = Str ''thrown'' \<rparr>" chainStore noFrames "''cause''" 5]
      handler_noop[of "\<lparr> ev_exception = None \<rparr>" "Some \<lparr> originalException = Ref 0 \<rparr>"
        chainStore noFrames "''cause''" 5] a b
    by simp
qed

text \<open>
  Claim C6. The code at an error whose cause is a Java throwable with an empty
  \<open>stackElements\<close> list: the record carries a stacktrace with an empty frame list.
\<close>

theorem walkErrorTree_empty_stackElements:
  "walkErrorTree noFrames 5 javaStore 0 ''cause'' [] =
     [\<lparr> e_type = Str ''java.lang.RuntimeException'', e_value = Str ''boom'',
        e_stacktrace = Some [] \<rparr>]"
  by code_simp

text \<open>
  Claim C7, as stated, fails: for an error that is its own cause and the default limit
  the walk is not over after the first call and one more; it returns four records.
\<close>

theorem walkErrorTree_selfcycle_counterexample:
  "getp selfCycleStore 0 ''cause'' = Ref 0
   \<and> walkErrorTreeFuel 2 noFrames 5 selfCycleStore 0 ''cause'' [] = None
   \<and> length (walkErrorTree noFrames 5 selfCycleStore 0 ''cause'' []) = 4"
  by code_simp

text \<open>
  Claim C7, amended. For every error and every limit the walk returns, after at most
  \<open>limit - 1\<close> recursive calls. A cycle is not detected: for an error that is its own
  cause the walk goes on until the limit stops it and returns \<open>limit - 1\<close> records of
  that same error.
\<close>

theorem walkErrorTree_terminates:
  "walkErrorTreeFuel (Suc (nat (limit - 1))) parser limit s error key [] =
     Some (walkErrorTree parser limit s error key [])
   \<and> (getp s error key = Ref error \<and> instanceOfError (s error) \<longrightarrow>
        walkErrorTree parser limit s error key [] =
          replicate (nat (limit - 1)) (linkedException parser s error))"
  using walk_fuel[of limit "[]" "Suc (nat (limit - 1))" parser s error key]
    walk_selfcycle[of s error key parser limit "[]"]
  by simp

theorem walkErrorTree_terminates_witness:
  "getp selfCycleStore 0 ''cause'' = Ref 0 \<and> instanceOfError (selfCycleStore 0)
   \<and> walkErrorTreeFuel 5 noFrames 5 selfCycleStore 0 ''cause'' [] =
       Some (walkErrorTree noFrames 5 selfCycleStore 0 ''cause'' [])
   \<and> walkErrorTree noFrames 5 selfCycleStore 0 ''cause'' [] =
       replicate 4 (linkedException noFrames selfCycleStore 0)"
proof -
  have g: "getp selfCycleStore 0 ''cause'' = Ref 0" by code_simp
  have i: "instanceOfError (selfCycleStore 0)" by code_simp
  have n: "Suc (nat (5 - 1)) = 5" "nat (5 - 1) = 4" by simp_all
  from walkErrorTree_terminates[of 5 noFrames selfCycleStore 0 "''cause''"] g i
  show ?thesis unfolding n by simp
qed

text \<open>
  Claim C8. In every state the listener can reach in which the background start is set,
  a further \<open>background\<close> event leaves the start as it is (and the transaction too).
\<close>

theorem onChange_background_keeps_start:
  assumes "reachable this" and "currentBackgroundStartTimestamp this \<noteq> None"
  shows "currentBackgroundStartTimestamp (fst (onChange this Background now tx)) =
           currentBackgroundStartTimestamp this
       \<and> snd (onChange this Background now tx) = tx"
proof -
  from assms(2) obtain t where t: "currentBackgroundStartTimestamp this = Some t" by auto
  from reachable_positive[OF assms(1) t] have "t \<noteq> 0" by simp
  with t show ?thesis by (simp add: onChange_def truthyTimestamp_def)
qed

theorem onChange_background_keeps_start_witness:
  "reachable (fst (onChange \<lparr> currentBackgroundStartTimestamp = None \<rparr> Background 100 None))
   \<and> currentBackgroundStartTimestamp
       (fst (onChange \<lparr> currentBackgroundStartTimestamp = None \<rparr> Background 100 None)) \<noteq> None
   \<and> currentBackgroundStartTimestamp
       (fst (onChange (fst (onChange \<lparr> currentBackgroundStartTimestamp = None \<rparr> Background 100 None))
          Background 250 None)) = Some 100"
proof -
  have r: "reachable (fst (onChange \<lparr> currentBackgroundStartTimestamp = None \<rparr> Background 100 None))"
    by (rule reachable.change[OF reachable.initial]) simp
  have v: "currentBackgroundStartTimestamp
       (fst (onChange \<lparr> currentBackgroundStartTimestamp = None \<rparr> Background 100 None)) = Some 100"
    by (simp add: onChange_def truthyTimestamp_def)
  have s: "currentBackgroundStartTimestamp
       (fst (onChange \<lparr> currentBackgroundStartTimestamp = None \<rparr> Background 100 None)) \<noteq> None"
    using v by simp
  from onChange_background_keeps_start[OF r s, of 250 None] r s v show ?thesis by simp
qed

text \<open>
  Claim C9. The constructor takes the default for a falsy option: a limit of \<open>0\<close> gives
  the same integration as a limit of \<open>5\<close>, with limit \<open>5\<close>, and an empty key gives the
  same integration as the key \<open>cause\<close>; so the registered event processors agree. The
  limit is not checked against \<open>1\<close>: a negative limit is kept. With the limit option
  \<open>0\<close> the walk of a chain of two causes returns both records.
\<close>

theorem constructor_falsy_defaults:
  "constructor (options \<lparr> o_limit := Some 0 \<rparr>) = constructor (options \<lparr> o_limit := Some 5 \<rparr>)
   \<and> n_limit (constructor (options \<lparr> o_limit := Some 0 \<rparr>)) = 5
   \<and> constructor (options \<lparr> o_key := Some [] \<rparr>) = constructor (options \<lparr> o_key := Some ''cause'' \<rparr>)
   \<and> n_key (constructor (options \<lparr> o_key := Some [] \<rparr>)) = ''cause''
   \<and> eventProcessor parser (constructor (options \<lparr> o_limit := Some 0 \<rparr>)) s event hint =
       eventProcessor parser (constructor (options \<lparr> o_limit := Some 5 \<rparr>)) s event hint
   \<and> eventProcessor parser (constructor (options \<lparr> o_key := Some [] \<rparr>)) s event hint =
       eventProcessor parser (constructor (options \<lparr> o_key := Some ''cause'' \<rparr>)) s event hint
   \<and> n_limit (constructor (options \<lparr> o_limit := Some (- 1) \<rparr>)) = - 1
   \<and> length (walkErrorTree noFrames
         (n_limit (constructor \<lparr> o_key = Some [], o_limit = Some 0 \<rparr>)) chainStore 0
         (n_key (constructor \<lparr> o_key = Some [], o_limit = Some 0 \<rparr>)) []) = 2"
proof -
  have "length (walkErrorTree noFrames
         (n_limit (constructor \<lparr> o_key = Some [], o_limit = Some 0 \<rparr>)) chainStore 0
         (n_key (constructor \<lparr> o_key = Some [], o_limit = Some 0 \<rparr>)) []) = 2"
    by code_simp
  then show ?thesis
    by (simp add: constructor_def eventProcessor_def DEFAULT_LIMIT_def DEFAULT_KEY_def)
qed

text \<open>
  Claim C10. In a non-empty span list: when the last span has no end timestamp the scan
  selects it, whatever the earlier spans are; when the last span has ended, the scan
  selects the ended span with the latest end and, among several spans with that end, the
  one with the greatest index.
\<close>

theorem findTrailing_selection:
  assumes "sps \<noteq> []"
  shows "(endTimestamp (last sps) = None \<longrightarrow> findTrailing sps = Some (length sps - 1, last sps))
       \<and> (endTimestamp (last sps) \<noteq> None \<longrightarrow>
            (\<exists>i. findTrailing sps = Some (i, sps ! i) \<and> isLatestEnded sps i))"
  using findTrailing_open[OF assms] findTrailing_latest[OF assms] by blast

theorem findTrailing_selection_witness:
  "openSpans \<noteq> [] \<and> endTimestamp (last openSpans) = None
   \<and> findTrailing openSpans = Some (1, mkSpan ''ui.load'' None)
   \<and> tieSpans \<noteq> [] \<and> endTimestamp (last tieSpans) \<noteq> None
   \<and> (\<exists>i. findTrailing tieSpans = Some (i, tieSpans ! i) \<and> isLatestEnded tieSpans i)
   \<and> findTrailing tieSpans = Some (1, mkSpan ''app.background'' (Some 7))"
proof -
  have a: "openSpans \<noteq> []" by (simp add: openSpans_def)
  have b: "endTimestamp (last openSpans) = None" by (simp add: openSpans_def mkSpan_def)
  have c: "tieSpans \<noteq> []" by (simp add: tieSpans_def)
  have d: "endTimestamp (last tieSpans) \<noteq> None" by (simp add: tieSpans_def mkSpan_def)
  have e: "length openSpans - 1 = 1" "last openSpans = mkSpan ''ui.load'' None"
    by (simp_all add: openSpans_def)
  have f: "findTrailing tieSpans = Some (1, mkSpan ''app.background'' (Some 7))"
    by (simp add: findTrailing_def tieSpans_def scanStep_def mkSpan_def numeral_3_eq_3)
  from findTrailing_selection[OF a] findTrailing_selection[OF c] a b c d e f
  show ?thesis by simp
qed

end
